theory Spec2Isabelle
  imports Main "HOL-Library.Sublist"
begin

section \<open>The books resolver of schema.py\<close>

text \<open>
  The module schema.py exposes one read operation, the field \<open>books\<close> of \<open>Query\<close>, and a
  helper \<open>get_author_by_id\<close>. Both talk to a relational store through a handle \<open>db\<close> with
  the methods \<open>fetch_all\<close> and \<open>fetch_one\<close>. The resolver is embedded as it is written:
  optional arguments are \<open>option\<close> values, Python's truthiness tests are written out, an
  exception is the left summand of a sum, and the store handle is passed in and returned.
\<close>

subsection \<open>Response objects and rows\<close>

text \<open>
  The strawberry types \<open>Author\<close> and \<open>Book\<close> of lines 24 to 32.
  \<^verbatim>\<open>
  @strawberry.type
  class Book:
      title: str
      author: Author
  \<close>
  Line 32 declares \<open>author: Author\<close>, without \<open>| None\<close>, so the field is non-nullable
  in the schema that line 119 builds. The class does not check its fields when an object
  is made, and line 94 passes it what \<open>get_author_by_id\<close> returned, which is \<open>None\<close>
  when the lookup found nothing. The record is the object as the resolver makes it, so
  its field is an \<open>option\<close>; the declared type is enforced where the value is served,
  which \<open>complete_books\<close> and \<open>serve_books\<close> below model.
\<close>

record Author =
  name :: string

record Book =
  title :: string
  author :: "Author option"

text \<open>
  A row of \<open>SELECT title, author_id FROM books\<close> and a row of
  \<open>SELECT id, name FROM authors\<close>, read in the source as \<open>row['title']\<close>,
  \<open>row['author_id']\<close> and \<open>row['name']\<close>. Columns are taken to be non-null.
\<close>

record book_row =
  row_title :: string
  row_author_id :: int

record author_row =
  row_id :: int
  row_name :: string

text \<open>A value bound to a named parameter of a statement, and the dictionary \<open>values\<close>.\<close>

datatype val = IntV int | StrV string | IntsV "int list"

type_synonym params = "string \<rightharpoonup> val"

text \<open>An exception raised by the data-access layer.\<close>

datatype error = DataAccessError string

subsection \<open>The store\<close>

text \<open>
  Modelled from the spec: the database collaborator (section 6 of the specification:
  \<open>fetchAll(sql, params)\<close> and \<open>fetchOne(sql, params)\<close> with named parameter binding) is the
  \<open>databases\<close> library in front of PostgreSQL and is not part of the repository. The store
  holds the two relations in the order in which it produces their rows, a schedule of
  data-access failures indexed by the number of calls made so far, and that number. A call
  that the schedule fails raises the scheduled error; every call advances the counter.
\<close>

record database =
  books_rel :: "book_row list"
  authors_rel :: "author_row list"
  faults :: "nat \<Rightarrow> error option"
  calls :: nat

definition tick :: "database \<Rightarrow> database" where
  "tick db = db\<lparr>calls := Suc (calls db)\<rparr>"

text \<open>
  Modelled from the spec: ASCII case folding, standing for the case-insensitive comparison
  of \<open>ILIKE\<close>.
\<close>

definition lower :: "char \<Rightarrow> char" where
  "lower c =
     (case map_of (zip ''ABCDEFGHIJKLMNOPQRSTUVWXYZ'' ''abcdefghijklmnopqrstuvwxyz'') c of
        Some l \<Rightarrow> l
      | None \<Rightarrow> c)"

text \<open>
  Modelled from the spec: the match of a text against a wildcard pattern, which the
  specification names and the store defines (PostgreSQL's \<open>LIKE\<close>). In a pattern \<open>%\<close>
  stands for any run of characters, \<open>_\<close> for any one character, a backslash makes the
  next character literal, and every other character stands for itself. A pattern whose
  last character is an unescaped backslash is rejected by the store (see
  \<open>dangling_escape\<close>); it matches nothing here. A character is a \<open>char\<close>, so texts are
  taken to be ASCII.
\<close>

fun like_match :: "string \<Rightarrow> string \<Rightarrow> bool" where
  "like_match [] t = (t = [])"
| "like_match (p # ps) t =
     (if p = CHR ''%'' then
        (like_match ps t \<or> (case t of [] \<Rightarrow> False | c # ts \<Rightarrow> like_match (p # ps) ts))
      else if p = CHR ''_'' then
        (case t of [] \<Rightarrow> False | c # ts \<Rightarrow> like_match ps ts)
      else if p = CHR 0x5C then
        (case ps of [] \<Rightarrow> False
         | q # qs \<Rightarrow> (case t of [] \<Rightarrow> False | c # ts \<Rightarrow> c = q \<and> like_match qs ts))
      else
        (case t of [] \<Rightarrow> False | c # ts \<Rightarrow> c = p \<and> like_match ps ts))"

fun dangling_escape :: "string \<Rightarrow> bool" where
  "dangling_escape [] = False"
| "dangling_escape [p] = (p = CHR 0x5C)"
| "dangling_escape (p # q # ps) =
     (if p = CHR 0x5C then dangling_escape ps else dangling_escape (q # ps))"

text \<open>Modelled from the spec: \<open>text ILIKE pattern\<close>, both sides case-folded.\<close>

definition ilike :: "string \<Rightarrow> string \<Rightarrow> bool" where
  "ilike t p = like_match (map lower p) (map lower t)"

text \<open>
  Modelled from the spec: the conditions the store understands in a \<open>WHERE\<close> clause over
  \<open>books\<close>, and the clauses it accepts. A condition whose parameter is not bound, or is
  bound to a value of the wrong type, has no meaning (\<open>None\<close>).
\<close>

datatype cond = AuthorAny | TitleIlike

definition where_clauses :: "(string \<times> cond list) list" where
  "where_clauses =
     [('''', []),
      ('' WHERE author_id = ANY(:author_ids)'', [AuthorAny]),
      ('' WHERE title ILIKE :search'', [TitleIlike]),
      ('' WHERE author_id = ANY(:author_ids) AND title ILIKE :search'', [AuthorAny, TitleIlike])]"

fun cond_pred :: "params \<Rightarrow> cond \<Rightarrow> (book_row \<Rightarrow> bool) option" where
  "cond_pred vs AuthorAny =
     (case vs ''author_ids'' of
        Some (IntsV ids) \<Rightarrow> Some (\<lambda>r. row_author_id r \<in> set ids)
      | _ \<Rightarrow> None)"
| "cond_pred vs TitleIlike =
     (case vs ''search'' of
        Some (StrV p) \<Rightarrow> if dangling_escape p then None else Some (\<lambda>r. ilike (row_title r) p)
      | _ \<Rightarrow> None)"

fun conds_pred :: "params \<Rightarrow> cond list \<Rightarrow> (book_row \<Rightarrow> bool) option" where
  "conds_pred vs [] = Some (\<lambda>r. True)"
| "conds_pred vs (c # cs) =
     (case cond_pred vs c of
        None \<Rightarrow> None
      | Some f \<Rightarrow> (case conds_pred vs cs of
                    None \<Rightarrow> None
                  | Some g \<Rightarrow> Some (\<lambda>r. f r \<and> g r)))"

text \<open>
  Modelled from the spec: the statement without its \<open>LIMIT\<close> clause, and whether it had
  one.
\<close>

definition limit_suffix :: string where
  "limit_suffix = '' LIMIT :limit''"

definition split_limit :: "string \<Rightarrow> string \<times> bool" where
  "split_limit q =
     (let n = length q - length limit_suffix
      in if length limit_suffix \<le> length q \<and> drop n q = limit_suffix
         then (take n q, True) else (q, False))"

definition select_books :: string where
  "select_books = ''SELECT title, author_id FROM books''"

text \<open>
  Modelled from the spec: \<open>fetch_all\<close> on the books relation. The statement is the fixed
  selection, an accepted \<open>WHERE\<close> clause and an optional \<open>LIMIT :limit\<close>; the rows are
  those of the relation that satisfy every condition, in the relation's order, cut to the
  first \<open>limit\<close> rows. A negative limit is an error of the store.
\<close>

definition run_select :: "database \<Rightarrow> string \<Rightarrow> params \<Rightarrow> error + book_row list" where
  "run_select db query vs =
     (if take (length select_books) query \<noteq> select_books
      then Inl (DataAccessError ''syntax error'')
      else
        (case split_limit (drop (length select_books) query) of
           (clause, has_limit) \<Rightarrow>
             (case map_of where_clauses clause of
                None \<Rightarrow> Inl (DataAccessError ''syntax error'')
              | Some cs \<Rightarrow>
                  (case conds_pred vs cs of
                     None \<Rightarrow> Inl (DataAccessError ''invalid parameter'')
                   | Some f \<Rightarrow>
                       (if has_limit then
                          (case vs ''limit'' of
                             Some (IntV n) \<Rightarrow>
                               (if n < 0 then Inl (DataAccessError ''LIMIT must not be negative'')
                                else Inr (take (nat n) (filter f (books_rel db))))
                           | _ \<Rightarrow> Inl (DataAccessError ''invalid parameter''))
                        else Inr (filter f (books_rel db)))))))"

definition fetch_all ::
  "database \<Rightarrow> string \<Rightarrow> params \<Rightarrow> (error + book_row list) \<times> database" where
  "fetch_all db query vs =
     (case faults db (calls db) of
        Some e \<Rightarrow> (Inl e, tick db)
      | None \<Rightarrow> (run_select db query vs, tick db))"

text \<open>
  Modelled from the spec: \<open>fetch_one\<close> on the authors relation, a point lookup by
  identifier that yields the first matching row or nothing.
\<close>

definition select_author :: string where
  "select_author = ''SELECT id, name FROM authors WHERE id = :author_id''"

definition run_lookup :: "database \<Rightarrow> string \<Rightarrow> params \<Rightarrow> error + author_row option" where
  "run_lookup db query vs =
     (if query \<noteq> select_author then Inl (DataAccessError ''syntax error'')
      else
        (case vs ''author_id'' of
           Some (IntV i) \<Rightarrow> Inr (find (\<lambda>r. row_id r = i) (authors_rel db))
         | _ \<Rightarrow> Inl (DataAccessError ''invalid parameter'')))"

definition fetch_one ::
  "database \<Rightarrow> string \<Rightarrow> params \<Rightarrow> (error + author_row option) \<times> database" where
  "fetch_one db query vs =
     (case faults db (calls db) of
        Some e \<Rightarrow> (Inl e, tick db)
      | None \<Rightarrow> (run_lookup db query vs, tick db))"

subsection \<open>get_author_by_id\<close>

text \<open>
  \<^verbatim>\<open>
  async def get_author_by_id(db, author_id: int) -> Author | None:
      query = "SELECT id, name FROM authors WHERE id = :author_id"
      values = {"author_id": author_id}
      row = await db.fetch_one(query, values=values)
      if row:
          return Author(name=row['name'])
      else:
          return None
  \<close>
  A row of two columns is truthy, so \<open>if row\<close> tests for \<open>None\<close>.
\<close>

definition get_author_by_id ::
  "database \<Rightarrow> int \<Rightarrow> (error + Author option) \<times> database" where
  "get_author_by_id db author_id =
     (let query = ''SELECT id, name FROM authors WHERE id = :author_id'';
          values = [''author_id'' \<mapsto> IntV author_id]
      in case fetch_one db query values of
           (Inl e, db') \<Rightarrow> (Inl e, db')
         | (Inr row, db') \<Rightarrow>
             (case row of
                Some r \<Rightarrow> (Inr (Some \<lparr>name = row_name r\<rparr>), db')
              | None \<Rightarrow> (Inr None, db')))"

subsection \<open>Query.books\<close>

text \<open>Python's \<open>sep.join(xs)\<close>.\<close>

fun join :: "string \<Rightarrow> string list \<Rightarrow> string" where
  "join sep [] = []"
| "join sep [x] = x"
| "join sep (x # y # ys) = x @ sep @ join sep (y # ys)"

text \<open>
  Lines 67 to 84: the list \<open>query_conditions\<close>, the text \<open>query\<close> and the dictionary
  \<open>values\<close>. \<open>if author_ids\<close>, \<open>if search\<close> and \<open>if limit\<close> are truthiness tests: \<open>None\<close>,
  the empty list, the empty string and \<open>0\<close> are false.
  \<^verbatim>\<open>
  query_conditions = []
  values = {}
  if author_ids:
      query_conditions.append("author_id = ANY(:author_ids)")
      values["author_ids"] = author_ids
  if search:
      query_conditions.append("title ILIKE :search")
      values["search"] = f"%{search}%"
  query = "SELECT title, author_id FROM books"
  if query_conditions:
      query += " WHERE " + " AND ".join(query_conditions)
  if limit:
      query += " LIMIT :limit"
      values["limit"] = limit
  \<close>
\<close>

definition books_statement ::
  "int list option \<Rightarrow> string option \<Rightarrow> int option \<Rightarrow> string list \<times> string \<times> params" where
  "books_statement author_ids search limit =
     (let query_conditions = [];
          values = Map.empty;
          (query_conditions, values) =
            (case author_ids of
               Some (i # ids) \<Rightarrow>
                 (query_conditions @ [''author_id = ANY(:author_ids)''],
                  values(''author_ids'' \<mapsto> IntsV (i # ids)))
             | _ \<Rightarrow> (query_conditions, values));
          (query_conditions, values) =
            (case search of
               Some (c # cs) \<Rightarrow>
                 (query_conditions @ [''title ILIKE :search''],
                  values(''search'' \<mapsto> StrV (''%'' @ (c # cs) @ ''%'')))
             | _ \<Rightarrow> (query_conditions, values));
          query = ''SELECT title, author_id FROM books'';
          query =
            (if query_conditions \<noteq> []
             then query @ '' WHERE '' @ join '' AND '' query_conditions
             else query);
          (query, values) =
            (case limit of
               Some n \<Rightarrow>
                 (if n \<noteq> 0 then (query @ '' LIMIT :limit'', values(''limit'' \<mapsto> IntV n))
                  else (query, values))
             | None \<Rightarrow> (query, values))
      in (query_conditions, query, values))"

text \<open>
  Lines 91 to 96: the loop over the rows, one author lookup per row, awaited before the
  next row is taken. An exception of a lookup leaves the loop and the function; the list
  built so far is lost with it.
  \<^verbatim>\<open>
  books = []
  for row in rows:
      author = await get_author_by_id(info.context.db, row['author_id'])
      book = Book(title=row['title'], author=author)
      books.append(book)
  return books
  \<close>
\<close>

fun resolve_rows ::
  "database \<Rightarrow> book_row list \<Rightarrow> Book list \<Rightarrow> (error + Book list) \<times> database" where
  "resolve_rows db [] books = (Inr books, db)"
| "resolve_rows db (row # rows) books =
     (case get_author_by_id db (row_author_id row) of
        (Inl e, db') \<Rightarrow> (Inl e, db')
      | (Inr found, db') \<Rightarrow>
          resolve_rows db' rows (books @ [\<lparr>title = row_title row, author = found\<rparr>]))"

text \<open>
  The resolver. Lines 86 to 89 catch an exception of \<open>fetch_all\<close> and raise the same
  exception again.
\<close>

definition books ::
  "database \<Rightarrow> int list option \<Rightarrow> string option \<Rightarrow> int option \<Rightarrow>
     (error + Book list) \<times> database" where
  "books db author_ids search limit =
     (case books_statement author_ids search limit of
        (query_conditions, query, values) \<Rightarrow>
          (case fetch_all db query values of
             (Inl e, db') \<Rightarrow> (Inl e, db')
           | (Inr rows, db') \<Rightarrow> resolve_rows db' rows []))"

subsection \<open>The field as the schema serves it\<close>

text \<open>
  Modelled from the spec: the schema and transport collaborator (section 6 of the
  specification) that serves the field \<open>books\<close> is strawberry's executor and is not part of
  the repository. The types it enforces are taken from the source, not from the
  specification: \<open>books\<close> returns \<open>List[Book]\<close> (line 57) and \<open>Book.author\<close> is \<open>Author\<close>
  (line 32), so the list, its items and the author of an item are all non-nullable. By
  the rule of GraphQL, a null in a non-nullable field is a field error that makes the
  nearest nullable parent null; here no parent is nullable, so the response carries the
  error and no data. The author of a book is looked at only when the request selects it.
\<close>

definition null_author_message :: string where
  "null_author_message = ''Cannot return null for non-nullable field Book.author.''"

fun complete_books :: "bool \<Rightarrow> Book list \<Rightarrow> string + Book list" where
  "complete_books selects_author [] = Inr []"
| "complete_books selects_author (b # bs) =
     (if selects_author \<and> author b = None then Inl null_author_message
      else
        (case complete_books selects_author bs of
           Inl m \<Rightarrow> Inl m
         | Inr cs \<Rightarrow> Inr (b # cs)))"

text \<open>
  The response to a request for \<open>books\<close>: the message of an exception of the resolver, or
  the completed list.
\<close>

definition serve_books ::
  "database \<Rightarrow> int list option \<Rightarrow> string option \<Rightarrow> int option \<Rightarrow> bool \<Rightarrow>
     (string + Book list) \<times> database" where
  "serve_books db author_ids search limit selects_author =
     (case books db author_ids search limit of
        (Inl (DataAccessError m), db') \<Rightarrow> (Inl m, db')
      | (Inr bs, db') \<Rightarrow> (complete_books selects_author bs, db'))"

subsection \<open>What the specification says of the result\<close>

text \<open>
  The definitions of this subsection follow the words of the specification, to be compared
  with the resolver. An author filter applies when \<open>authorIds\<close> is present and non-empty,
  a search filter when \<open>search\<close> is present and non-empty; the search filter is the match
  of the title against the wildcard-wrapped pattern.
\<close>

definition author_filter :: "int list option \<Rightarrow> book_row \<Rightarrow> bool" where
  "author_filter author_ids r =
     (case author_ids of
        Some (i # ids) \<Rightarrow> row_author_id r \<in> set (i # ids)
      | _ \<Rightarrow> True)"

definition search_filter :: "string option \<Rightarrow> book_row \<Rightarrow> bool" where
  "search_filter search r =
     (case search of
        Some (c # cs) \<Rightarrow> ilike (row_title r) (''%'' @ (c # cs) @ ''%'')
      | _ \<Rightarrow> True)"

definition qualifies :: "int list option \<Rightarrow> string option \<Rightarrow> book_row \<Rightarrow> bool" where
  "qualifies author_ids search r = (author_filter author_ids r \<and> search_filter search r)"

text \<open>The qualifying rows, in the order of the store.\<close>

definition qualifying :: "database \<Rightarrow> int list option \<Rightarrow> string option \<Rightarrow> book_row list" where
  "qualifying db author_ids search = filter (qualifies author_ids search) (books_rel db)"

text \<open>The row-count cap of a limit that is present and not zero.\<close>

definition cap :: "int option \<Rightarrow> 'a list \<Rightarrow> 'a list" where
  "cap limit xs =
     (case limit of
        Some n \<Rightarrow> if n \<noteq> 0 then take (nat n) xs else xs
      | None \<Rightarrow> xs)"

text \<open>A limit the store accepts: none, or one that is not negative.\<close>

definition limit_valid :: "int option \<Rightarrow> bool" where
  "limit_valid limit = (case limit of Some n \<Rightarrow> 0 \<le> n | None \<Rightarrow> True)"

text \<open>The book of a row: its title, and its author as the authors relation has it.\<close>

definition author_of :: "database \<Rightarrow> int \<Rightarrow> Author option" where
  "author_of db i =
     (case find (\<lambda>a. row_id a = i) (authors_rel db) of
        Some a \<Rightarrow> Some \<lparr>name = row_name a\<rparr>
      | None \<Rightarrow> None)"

definition book_of :: "database \<Rightarrow> book_row \<Rightarrow> Book" where
  "book_of db r = \<lparr>title = row_title r, author = author_of db (row_author_id r)\<rparr>"

text \<open>
  Literal containment in any letter case: the folded search string occurs in the folded
  title as a contiguous run.
\<close>

definition title_contains :: "string \<Rightarrow> book_row \<Rightarrow> bool" where
  "title_contains search r = sublist (map lower search) (map lower (row_title r))"

definition containing_books :: "database \<Rightarrow> string \<Rightarrow> Book list" where
  "containing_books db search = map (book_of db) (filter (title_contains search) (books_rel db))"

text \<open>An optional list or string argument that is given and not empty.\<close>

definition present_nonempty :: "'a list option \<Rightarrow> bool" where
  "present_nonempty x = (case x of Some (y # ys) \<Rightarrow> True | _ \<Rightarrow> False)"

text \<open>A store without scheduled failures.\<close>

definition fault_free :: "database \<Rightarrow> bool" where
  "fault_free db = (\<forall>n. faults db n = None)"

subsection \<open>Example stores\<close>

text \<open>
  Five books by three author references, of which \<open>7\<close> has no row in the authors
  relation; and the same store with a failure scheduled for its third data access.
\<close>

definition example_db :: database where
  "example_db =
     \<lparr>books_rel =
        [\<lparr>row_title = ''FooBar'', row_author_id = 1\<rparr>,
         \<lparr>row_title = ''bar'', row_author_id = 7\<rparr>,
         \<lparr>row_title = ''Tofoo'', row_author_id = 2\<rparr>,
         \<lparr>row_title = ''Wool'', row_author_id = 1\<rparr>,
         \<lparr>row_title = ''food'', row_author_id = 2\<rparr>],
      authors_rel =
        [\<lparr>row_id = 1, row_name = ''Ann''\<rparr>,
         \<lparr>row_id = 2, row_name = ''Bob''\<rparr>],
      faults = (\<lambda>n. None),
      calls = 0\<rparr>"

definition connection_lost :: error where
  "connection_lost = DataAccessError ''connection lost''"

definition failing_db :: "nat \<Rightarrow> database" where
  "failing_db k =
     example_db\<lparr>faults := (\<lambda>n. if n = k then Some connection_lost else None)\<rparr>"

section \<open>Properties\<close>

subsection \<open>The pattern language\<close>

lemma dangling_escape_percent: "\<not> dangling_escape (xs @ ''%'')"
  by (induction xs rule: dangling_escape.induct) auto

lemma dangling_escape_wrapped: "\<not> dangling_escape (c # cs @ ''%'')"
  using dangling_escape_percent [of "c # cs"] by simp

lemma like_match_percent:
  "like_match (CHR ''%'' # p) t = (\<exists>u v. t = u @ v \<and> like_match p v)"
proof (induction t)
  case Nil
  then show ?case by simp
next
  case (Cons c ts)
  have "like_match (CHR ''%'' # p) (c # ts) = (like_match p (c # ts) \<or> like_match (CHR ''%'' # p) ts)"
    by simp
  also have "\<dots> = (like_match p (c # ts) \<or> (\<exists>u v. ts = u @ v \<and> like_match p v))"
    using Cons.IH by simp
  also have "\<dots> = (\<exists>u v. c # ts = u @ v \<and> like_match p v)"
    by (auto simp: Cons_eq_append_conv)
  finally show ?case .
qed

lemma like_match_literal:
  "\<forall>c\<in>set s. c \<notin> {CHR ''%'', CHR ''_'', CHR 0x5C} \<Longrightarrow>
   like_match (s @ p) t = (\<exists>t'. t = s @ t' \<and> like_match p t')"
proof (induction s arbitrary: t)
  case Nil
  then show ?case by simp
next
  case (Cons c s)
  then show ?case by (cases t) auto
qed

lemma like_match_any: "like_match ''%'' t"
  using like_match_percent [of "[]" t] by simp

lemma like_match_wrapped:
  assumes "\<forall>c\<in>set s. c \<notin> {CHR ''%'', CHR ''_'', CHR 0x5C}"
  shows "like_match (''%'' @ s @ ''%'') t = sublist s t"
proof -
  have "like_match (''%'' @ s @ ''%'') t = (\<exists>u v. t = u @ v \<and> like_match (s @ ''%'') v)"
    using like_match_percent [of "s @ ''%''" t] by simp
  also have "\<dots> = (\<exists>u v. t = u @ v \<and> (\<exists>t'. v = s @ t'))"
    using like_match_literal [OF assms, of "''%''"] like_match_any by simp
  also have "\<dots> = sublist s t"
    by (auto simp: sublist_def)
  finally show ?thesis .
qed

lemma lower_special:
  "lower c \<in> {CHR ''%'', CHR ''_'', CHR 0x5C} \<longleftrightarrow> c \<in> {CHR ''%'', CHR ''_'', CHR 0x5C}"
  by (simp add: lower_def)

lemma lower_percent: "lower CHR ''%'' = CHR ''%''"
  by (simp add: lower_def)

lemma lower_underscore: "lower CHR ''_'' = CHR ''_''"
  by (simp add: lower_def)

lemma ilike_wrapped:
  assumes "\<forall>c\<in>set s. c \<notin> {CHR ''%'', CHR ''_'', CHR 0x5C}"
  shows "ilike t (''%'' @ s @ ''%'') = sublist (map lower s) (map lower t)"
proof -
  have "\<forall>c\<in>set (map lower s). c \<notin> {CHR ''%'', CHR ''_'', CHR 0x5C}"
    using assms lower_special by auto
  then show ?thesis
    using like_match_wrapped [of "map lower s" "map lower t"]
    by (simp add: ilike_def lower_percent)
qed

lemma ilike_percent: "ilike t ''%%%''"
proof -
  have "like_match ''%%%'' (map lower t) = (\<exists>u v. map lower t = u @ v \<and> like_match ''%%'' v)"
    using like_match_percent [of "''%%''" "map lower t"] by simp
  moreover have "like_match ''%%'' v" for v
    using like_match_percent [of "''%''" v] like_match_any by auto
  ultimately have "like_match ''%%%'' (map lower t)"
    by auto
  then show ?thesis
    by (simp add: ilike_def lower_percent)
qed

lemma ilike_underscore: "ilike t ''%_%'' = (t \<noteq> [])"
proof -
  have one: "like_match ''_%'' v = (v \<noteq> [])" for v
    using like_match_any by (cases v) simp_all
  have "like_match ''%_%'' (map lower t) = (\<exists>u v. map lower t = u @ v \<and> like_match ''_%'' v)"
    by (rule like_match_percent)
  also have "\<dots> = (\<exists>u v. map lower t = u @ v \<and> v \<noteq> [])"
    by (simp only: one)
  also have "\<dots> = (t \<noteq> [])"
    by (cases t) auto
  finally show ?thesis
    by (simp add: ilike_def lower_percent lower_underscore)
qed

subsection \<open>The store and the lookup\<close>

lemma fault_free_tick: "fault_free (tick db) = fault_free db"
  by (simp add: fault_free_def tick_def)

lemma author_of_tick: "author_of (tick db) = author_of db"
  by (simp add: author_of_def tick_def fun_eq_iff)

lemma book_of_tick: "book_of (tick db) = book_of db"
  by (simp add: book_of_def author_of_tick fun_eq_iff)

lemma get_author_by_id_ok:
  "faults db (calls db) = None \<Longrightarrow> get_author_by_id db i = (Inr (author_of db i), tick db)"
  by (simp add: get_author_by_id_def fetch_one_def run_lookup_def select_author_def author_of_def
      split: option.splits)

lemma get_author_by_id_fault:
  "faults db (calls db) = Some e \<Longrightarrow> get_author_by_id db i = (Inl e, tick db)"
  by (simp add: get_author_by_id_def fetch_one_def)

lemma find_first_of_filter: "filter P xs = r # rs \<Longrightarrow> find P xs = Some r"
  by (induction xs) (auto split: if_splits)

lemma author_of_unique:
  "filter (\<lambda>a. row_id a = i) (authors_rel db) = [r] \<Longrightarrow> author_of db i = Some \<lparr>name = row_name r\<rparr>"
  by (simp add: author_of_def find_first_of_filter)

lemma author_of_missing:
  "i \<notin> set (map row_id (authors_rel db)) \<Longrightarrow> author_of db i = None"
  by (auto simp: author_of_def find_None_iff split: option.splits)

subsection \<open>The loop over the rows\<close>

lemma resolve_rows_ok:
  "fault_free db \<Longrightarrow> fst (resolve_rows db rows acc) = Inr (acc @ map (book_of db) rows)"
proof (induction rows arbitrary: db acc)
  case Nil
  then show ?case by simp
next
  case (Cons row rows)
  from Cons.prems have "faults db (calls db) = None"
    by (simp add: fault_free_def)
  then have "resolve_rows db (row # rows) acc =
      resolve_rows (tick db) rows (acc @ [book_of db row])"
    by (simp add: get_author_by_id_ok book_of_def)
  moreover have "fault_free (tick db)"
    using Cons.prems by (simp add: fault_free_tick)
  ultimately show ?case
    using Cons.IH [of "tick db" "acc @ [book_of db row]"] by (simp add: book_of_tick)
qed

lemma resolve_rows_fault:
  "k < length rows \<Longrightarrow> \<forall>j<k. faults db (calls db + j) = None \<Longrightarrow>
   faults db (calls db + k) = Some e \<Longrightarrow> fst (resolve_rows db rows acc) = Inl e"
proof (induction rows arbitrary: db k acc)
  case Nil
  then show ?case by simp
next
  case (Cons row rows)
  show ?case
  proof (cases k)
    case 0
    with Cons.prems have "faults db (calls db) = Some e" by simp
    then show ?thesis by (simp add: get_author_by_id_fault)
  next
    case (Suc k')
    with Cons.prems have now: "faults db (calls db) = None" by auto
    have step: "resolve_rows db (row # rows) acc =
        resolve_rows (tick db) rows (acc @ [book_of db row])"
      using now by (simp add: get_author_by_id_ok book_of_def)
    have "k' < length rows"
      using Cons.prems Suc by simp
    moreover have "\<forall>j<k'. faults (tick db) (calls (tick db) + j) = None"
      using Cons.prems(2) Suc by (auto simp: tick_def)
    moreover have "faults (tick db) (calls (tick db) + k') = Some e"
      using Cons.prems(3) Suc by (simp add: tick_def)
    ultimately have "fst (resolve_rows (tick db) rows (acc @ [book_of db row])) = Inl e"
      by (rule Cons.IH)
    with step show ?thesis by simp
  qed
qed

lemma resolve_rows_length:
  "resolve_rows db rows acc = (Inr bs, db') \<Longrightarrow> length bs = length acc + length rows"
proof (induction rows arbitrary: db acc)
  case Nil
  then show ?case by simp
next
  case (Cons row rows)
  obtain r db1 where g: "get_author_by_id db (row_author_id row) = (r, db1)"
    by (cases "get_author_by_id db (row_author_id row)")
  show ?case
  proof (cases r)
    case (Inl e)
    with Cons.prems g show ?thesis by simp
  next
    case (Inr found)
    with Cons.prems g have
      "resolve_rows db1 rows (acc @ [\<lparr>title = row_title row, author = found\<rparr>]) = (Inr bs, db')"
      by simp
    from Cons.IH [OF this] show ?thesis by simp
  qed
qed

lemma resolve_rows_result:
  "resolve_rows db rows acc = (Inr bs, db') \<Longrightarrow> bs = acc @ map (book_of db) rows"
proof (induction rows arbitrary: db acc)
  case Nil
  then show ?case by simp
next
  case (Cons row rows)
  show ?case
  proof (cases "faults db (calls db)")
    case None
    then have "resolve_rows db (row # rows) acc =
        resolve_rows (tick db) rows (acc @ [book_of db row])"
      by (simp add: get_author_by_id_ok book_of_def)
    with Cons.prems have "bs = (acc @ [book_of db row]) @ map (book_of (tick db)) rows"
      using Cons.IH [of "tick db" "acc @ [book_of db row]"] by simp
    then show ?thesis by (simp add: book_of_tick)
  next
    case (Some e)
    then have "resolve_rows db (row # rows) acc = (Inl e, tick db)"
      by (simp add: get_author_by_id_fault)
    with Cons.prems show ?thesis by simp
  qed
qed

subsection \<open>The statement and the selection\<close>

lemma opt_list_cases:
  obtains "x = None" | "x = Some []" | y ys where "x = Some (y # ys)"
proof (cases x)
  case None
  then show ?thesis using that by simp
next
  case (Some a)
  then show ?thesis using that by (cases a) simp_all
qed

lemma run_select_statement:
  "run_select db (fst (snd (books_statement author_ids search limit)))
       (snd (snd (books_statement author_ids search limit))) =
     (case limit of
        Some n \<Rightarrow> if n < 0 then Inl (DataAccessError ''LIMIT must not be negative'')
                  else Inr (cap limit (qualifying db author_ids search))
      | None \<Rightarrow> Inr (cap limit (qualifying db author_ids search)))"
  by (cases author_ids rule: opt_list_cases; cases search rule: opt_list_cases; cases limit)
     (simp_all add: books_statement_def run_select_def select_books_def split_limit_def
      limit_suffix_def where_clauses_def qualifying_def qualifies_def [abs_def] author_filter_def
      search_filter_def cap_def dangling_escape_wrapped)

lemma set_cap_subset: "set (cap limit xs) \<subseteq> set xs"
  by (auto simp: cap_def split: option.splits dest: in_set_takeD)

lemma qualifying_search_only:
  "qualifying db None (Some (c # cs)) =
     filter (\<lambda>r. ilike (row_title r) (''%'' @ (c # cs) @ ''%'')) (books_rel db)"
  by (simp add: qualifying_def qualifies_def [abs_def] author_filter_def search_filter_def)

lemma books_unfold:
  "books db author_ids search limit =
     (case fetch_all db (fst (snd (books_statement author_ids search limit)))
             (snd (snd (books_statement author_ids search limit))) of
        (Inl e, db') \<Rightarrow> (Inl e, db')
      | (Inr rows, db') \<Rightarrow> resolve_rows db' rows [])"
  by (cases "books_statement author_ids search limit") (simp add: books_def)

lemma books_fault_free:
  assumes "fault_free db" and "limit_valid limit"
  shows "fst (books db author_ids search limit) =
    Inr (map (book_of db) (cap limit (qualifying db author_ids search)))"
proof -
  have "faults db (calls db) = None"
    using assms(1) by (simp add: fault_free_def)
  moreover have "run_select db (fst (snd (books_statement author_ids search limit)))
       (snd (snd (books_statement author_ids search limit))) =
       Inr (cap limit (qualifying db author_ids search))"
    using assms(2) by (cases limit) (auto simp: run_select_statement limit_valid_def)
  ultimately have "books db author_ids search limit =
      resolve_rows (tick db) (cap limit (qualifying db author_ids search)) []"
    by (simp add: books_unfold fetch_all_def)
  then show ?thesis
    using resolve_rows_ok [of "tick db"] assms(1)
    by (simp add: fault_free_tick book_of_tick)
qed


subsection \<open>The value the resolver returns and the value that is served\<close>

text \<open>
  The resolver itself returns a book for every returned row, with \<open>None\<close> for an author
  that has no row in the authors relation.
\<close>

lemma books_returns_none_for_missing_author:
  assumes "books_statement author_ids search limit = (cs, q, vs)"
    and "fst (fetch_all db q vs) = Inr rows"
    and "i < length rows"
    and "row_author_id (rows ! i) \<notin> set (map row_id (authors_rel db))"
  shows "(fault_free db \<longrightarrow> (\<exists>bs. fst (books db author_ids search limit) = Inr bs)) \<and>
         (fst (books db author_ids search limit) = Inr bs \<longrightarrow>
            length bs = length rows \<and>
            bs ! i = \<lparr>title = row_title (rows ! i), author = None\<rparr>)"
proof -
  obtain db1 where f: "fetch_all db q vs = (Inr rows, db1)"
    using assms(2) by (cases "fetch_all db q vs") simp
  then have db1: "db1 = tick db"
    by (simp add: fetch_all_def split: option.splits)
  have b: "books db author_ids search limit = resolve_rows (tick db) rows []"
    using assms(1) f db1 by (simp add: books_def)
  have returns: "\<exists>bs. fst (books db author_ids search limit) = Inr bs" if "fault_free db"
    using resolve_rows_ok [of "tick db" rows "[]"] that b by (simp add: fault_free_tick)
  have result: "length bs = length rows \<and>
      bs ! i = \<lparr>title = row_title (rows ! i), author = None\<rparr>"
    if res: "fst (books db author_ids search limit) = Inr bs"
  proof -
    obtain db2 where "resolve_rows (tick db) rows [] = (Inr bs, db2)"
      using b res by (cases "resolve_rows (tick db) rows []") simp
    from resolve_rows_result [OF this] have bs: "bs = map (book_of db) rows"
      by (simp add: book_of_tick)
    have "author_of db (row_author_id (rows ! i)) = None"
      using assms(4) by (rule author_of_missing)
    then show ?thesis
      using assms(3) by (simp add: bs book_of_def)
  qed
  from returns result show ?thesis
    by blast
qed

text \<open>Completing a list for a request that selects the author fails on a \<open>None\<close> author.\<close>

lemma complete_books_null_author:
  "b \<in> set bs \<Longrightarrow> author b = None \<Longrightarrow> complete_books True bs = Inl null_author_message"
proof (induction bs)
  case Nil
  then show ?case by simp
next
  case (Cons x xs)
  show ?case
  proof (cases "author x = None")
    case True
    then show ?thesis by simp
  next
    case False
    with Cons.prems have "b \<in> set xs" by auto
    with Cons.IH Cons.prems(2) have "complete_books True xs = Inl null_author_message"
      by simp
    with False show ?thesis by simp
  qed
qed

lemma complete_books_unselected: "complete_books False bs = Inr bs"
  by (induction bs) simp_all

lemma serve_books_missing_author:
  assumes "fault_free db" and "limit_valid limit"
    and "r \<in> set (cap limit (qualifying db author_ids search))"
    and "row_author_id r \<notin> set (map row_id (authors_rel db))"
  shows "fst (serve_books db author_ids search limit True) = Inl null_author_message"
proof -
  let ?bs = "map (book_of db) (cap limit (qualifying db author_ids search))"
  obtain db' where b: "books db author_ids search limit = (Inr ?bs, db')"
    using books_fault_free [OF assms(1) assms(2), of author_ids search]
    by (cases "books db author_ids search limit") simp
  have "author_of db (row_author_id r) = None"
    using assms(4) by (rule author_of_missing)
  then have "author (book_of db r) = None"
    by (simp add: book_of_def)
  moreover have "book_of db r \<in> set ?bs"
    using assms(3) by simp
  ultimately have "complete_books True ?bs = Inl null_author_message"
    by (rule complete_books_null_author [rotated])
  with b show ?thesis
    by (simp add: serve_books_def)
qed

section \<open>The claims\<close>

lemmas example_simps = example_db_def failing_db_def connection_lost_def fault_free_def

text \<open>
  C1. The property does not hold of the code. In the example store the second book
  refers to the author \<open>7\<close>, who has no row in the authors relation. The resolver
  returns that book with the author \<open>None\<close>, as the property wants; but line 32 declares
  the field \<open>author: Author\<close>, non-nullable, although \<open>get_author_by_id\<close> is declared to
  return \<open>Author | None\<close>. A request that selects the author is therefore answered with
  the error of the null field and with no book at all, and only a request that leaves
  the author out is answered with the five books.
\<close>

theorem books_missing_author_served_as_error:
  "row_author_id (books_rel example_db ! 1) \<notin> set (map row_id (authors_rel example_db)) \<and>
   fst (books example_db None None None) =
     Inr [\<lparr>title = ''FooBar'', author = Some \<lparr>name = ''Ann''\<rparr>\<rparr>,
          \<lparr>title = ''bar'', author = None\<rparr>,
          \<lparr>title = ''Tofoo'', author = Some \<lparr>name = ''Bob''\<rparr>\<rparr>,
          \<lparr>title = ''Wool'', author = Some \<lparr>name = ''Ann''\<rparr>\<rparr>,
          \<lparr>title = ''food'', author = Some \<lparr>name = ''Bob''\<rparr>\<rparr>] \<and>
   fst (serve_books example_db None None None True) =
     Inl ''Cannot return null for non-nullable field Book.author.'' \<and>
   fst (serve_books example_db None None None False) =
     Inr [\<lparr>title = ''FooBar'', author = Some \<lparr>name = ''Ann''\<rparr>\<rparr>,
          \<lparr>title = ''bar'', author = None\<rparr>,
          \<lparr>title = ''Tofoo'', author = Some \<lparr>name = ''Bob''\<rparr>\<rparr>,
          \<lparr>title = ''Wool'', author = Some \<lparr>name = ''Ann''\<rparr>\<rparr>,
          \<lparr>title = ''food'', author = Some \<lparr>name = ''Bob''\<rparr>\<rparr>]"
proof -
  have h1: "fault_free example_db"
    by (simp add: example_simps)
  have h2: "limit_valid None"
    by (simp add: limit_valid_def)
  have q: "cap None (qualifying example_db None None) = books_rel example_db"
    by (simp add: cap_def qualifying_def qualifies_def author_filter_def search_filter_def)
  have m: "row_author_id (books_rel example_db ! 1) \<notin> set (map row_id (authors_rel example_db))"
    by (simp add: example_db_def)
  have i: "books_rel example_db ! 1 \<in> set (cap None (qualifying example_db None None))"
    unfolding q by (simp add: example_db_def)
  have e: "map (book_of example_db) (books_rel example_db) =
     [\<lparr>title = ''FooBar'', author = Some \<lparr>name = ''Ann''\<rparr>\<rparr>,
      \<lparr>title = ''bar'', author = None\<rparr>,
      \<lparr>title = ''Tofoo'', author = Some \<lparr>name = ''Bob''\<rparr>\<rparr>,
      \<lparr>title = ''Wool'', author = Some \<lparr>name = ''Ann''\<rparr>\<rparr>,
      \<lparr>title = ''food'', author = Some \<lparr>name = ''Bob''\<rparr>\<rparr>]"
    by (simp add: book_of_def author_of_def example_db_def)
  note b = books_fault_free [OF h1 h2, of None None, unfolded q e]
  have s: "fst (serve_books example_db None None None True) =
      Inl ''Cannot return null for non-nullable field Book.author.''"
    using serve_books_missing_author [OF h1 h2 i m] by (simp add: null_author_message_def)
  obtain db' where "books example_db None None None =
     (Inr [\<lparr>title = ''FooBar'', author = Some \<lparr>name = ''Ann''\<rparr>\<rparr>,
          \<lparr>title = ''bar'', author = None\<rparr>,
          \<lparr>title = ''Tofoo'', author = Some \<lparr>name = ''Bob''\<rparr>\<rparr>,
          \<lparr>title = ''Wool'', author = Some \<lparr>name = ''Ann''\<rparr>\<rparr>,
          \<lparr>title = ''food'', author = Some \<lparr>name = ''Bob''\<rparr>\<rparr>], db')"
    using b by (cases "books example_db None None None") simp
  then have u: "fst (serve_books example_db None None None False) =
     Inr [\<lparr>title = ''FooBar'', author = Some \<lparr>name = ''Ann''\<rparr>\<rparr>,
          \<lparr>title = ''bar'', author = None\<rparr>,
          \<lparr>title = ''Tofoo'', author = Some \<lparr>name = ''Bob''\<rparr>\<rparr>,
          \<lparr>title = ''Wool'', author = Some \<lparr>name = ''Ann''\<rparr>\<rparr>,
          \<lparr>title = ''food'', author = Some \<lparr>name = ''Bob''\<rparr>\<rparr>]"
    by (simp add: serve_books_def complete_books_unselected)
  from m b s u show ?thesis
    by blast
qed

text \<open>
  C2 (amended). For every combination of arguments, the list of conditions has one entry
  for each of \<open>authorIds\<close> and \<open>search\<close> that is given and not empty (so 0, 1 or 2
  entries), and it does not depend on the limit. The limit adds no condition: it adds the
  clause \<open>LIMIT :limit\<close> at the end of the statement, and binds the parameter \<open>limit\<close>,
  exactly when it is given and not zero.
\<close>

theorem books_statement_shape:
  "length (fst (books_statement author_ids search limit)) =
     (if present_nonempty author_ids then 1 else 0) + (if present_nonempty search then 1 else 0) \<and>
   fst (books_statement author_ids search limit) = fst (books_statement author_ids search None) \<and>
   (suffix '' LIMIT :limit'' (fst (snd (books_statement author_ids search limit))) \<longleftrightarrow>
      limit \<noteq> None \<and> limit \<noteq> Some 0) \<and>
   snd (snd (books_statement author_ids search limit)) ''limit'' =
     (if limit = Some 0 then None else map_option IntV limit)"
proof -
  consider "limit = None" | "limit = Some 0" | n where "limit = Some n" "n \<noteq> 0"
    by (cases limit) auto
  then show ?thesis
  proof cases
    case 1
    then show ?thesis
      by (cases author_ids rule: opt_list_cases; cases search rule: opt_list_cases)
         (simp_all add: books_statement_def present_nonempty_def suffix_to_prefix)
  next
    case 2
    then show ?thesis
      by (cases author_ids rule: opt_list_cases; cases search rule: opt_list_cases)
         (simp_all add: books_statement_def present_nonempty_def suffix_to_prefix)
  next
    case 3
    then show ?thesis
      by (cases author_ids rule: opt_list_cases; cases search rule: opt_list_cases)
         (simp_all add: books_statement_def present_nonempty_def suffix_to_prefix)
  qed
qed

theorem books_statement_shape_witness:
  "length (fst (books_statement (Some [1, 2]) (Some ''foo'') (Some 2))) = 2 \<and>
   suffix '' LIMIT :limit'' (fst (snd (books_statement (Some [1, 2]) (Some ''foo'') (Some 2)))) \<and>
   snd (snd (books_statement (Some [1, 2]) (Some ''foo'') (Some 2))) ''limit'' = Some (IntV 2)"
proof -
  note c = books_statement_shape [of "Some [1, 2]" "Some ''foo''" "Some 2"]
  from c [THEN conjunct1]
  have a: "length (fst (books_statement (Some [1, 2]) (Some ''foo'') (Some 2))) = 2"
    by (simp add: present_nonempty_def)
  from c [THEN conjunct2, THEN conjunct2, THEN conjunct1]
  have b: "suffix '' LIMIT :limit''
      (fst (snd (books_statement (Some [1, 2]) (Some ''foo'') (Some 2))))"
    by simp
  from c [THEN conjunct2, THEN conjunct2, THEN conjunct2]
  have d: "snd (snd (books_statement (Some [1, 2]) (Some ''foo'') (Some 2))) ''limit'' =
      Some (IntV 2)"
    by simp
  from a b d show ?thesis
    by blast
qed

text \<open>
  Without the words "and not zero" the property fails: the limit \<open>0\<close> is given, and the
  statement built for it does not end in the clause.
\<close>

theorem books_statement_limit_zero_counterexample:
  "\<not> (suffix '' LIMIT :limit'' (fst (snd (books_statement None None (Some 0)))) \<longleftrightarrow>
      Some (0::int) \<noteq> None)"
  by (simp add: books_statement_def suffix_to_prefix)

text \<open>
  C3. For every store, search and limit, the resolver called with the empty list of
  author identifiers returns what it returns with no list at all, result and store alike.
\<close>

theorem books_empty_author_ids:
  "books db (Some []) search limit = books db None search limit"
  by (simp add: books_def books_statement_def)

text \<open>
  C4. For every non-empty list of author identifiers, on a store without failures and
  with a limit the store accepts, the books returned are the books of the qualifying rows
  in the order of the store, cut by the limit when one applies; the qualifying rows are
  the rows whose author reference is in the list (and that match the search, when one is
  given), so every returned row has its author reference in the list.
\<close>

theorem books_author_filter:
  assumes "fault_free db" and "ids \<noteq> []" and "limit_valid limit"
  shows "fst (books db (Some ids) search limit) =
           Inr (map (book_of db) (cap limit (qualifying db (Some ids) search))) \<and>
         qualifying db (Some ids) search =
           filter (\<lambda>r. row_author_id r \<in> set ids \<and> search_filter search r) (books_rel db) \<and>
         (\<forall>r\<in>set (cap limit (qualifying db (Some ids) search)). row_author_id r \<in> set ids)"
proof -
  obtain i rest where ids: "ids = i # rest"
    using assms(2) by (cases ids) auto
  have q: "qualifying db (Some ids) search =
      filter (\<lambda>r. row_author_id r \<in> set ids \<and> search_filter search r) (books_rel db)"
    by (simp add: qualifying_def qualifies_def [abs_def] author_filter_def ids)
  have "\<forall>r\<in>set (qualifying db (Some ids) search). row_author_id r \<in> set ids"
    by (simp add: q)
  then have "\<forall>r\<in>set (cap limit (qualifying db (Some ids) search)). row_author_id r \<in> set ids"
    using set_cap_subset [of limit "qualifying db (Some ids) search"] by blast
  with q books_fault_free [OF assms(1) assms(3), of "Some ids" search] show ?thesis
    by blast
qed

theorem books_author_filter_witness:
  "fault_free example_db \<and> [1, 2] \<noteq> ([] :: int list) \<and> limit_valid (Some 3) \<and>
   fst (books example_db (Some [1, 2]) None (Some 3)) =
     Inr [\<lparr>title = ''FooBar'', author = Some \<lparr>name = ''Ann''\<rparr>\<rparr>,
          \<lparr>title = ''Tofoo'', author = Some \<lparr>name = ''Bob''\<rparr>\<rparr>,
          \<lparr>title = ''Wool'', author = Some \<lparr>name = ''Ann''\<rparr>\<rparr>]"
proof -
  have h1: "fault_free example_db"
    by (simp add: example_simps)
  have h2: "[1, 2] \<noteq> ([] :: int list)"
    by simp
  have h3: "limit_valid (Some 3)"
    by (simp add: limit_valid_def)
  have e: "map (book_of example_db) (cap (Some 3) (qualifying example_db (Some [1, 2]) None)) =
     [\<lparr>title = ''FooBar'', author = Some \<lparr>name = ''Ann''\<rparr>\<rparr>,
      \<lparr>title = ''Tofoo'', author = Some \<lparr>name = ''Bob''\<rparr>\<rparr>,
      \<lparr>title = ''Wool'', author = Some \<lparr>name = ''Ann''\<rparr>\<rparr>]"
    by (simp add: qualifying_def qualifies_def author_filter_def search_filter_def cap_def
        book_of_def author_of_def example_db_def)
  note c = books_author_filter [OF h1 h2 h3, of None, THEN conjunct1, unfolded e]
  from h1 h2 h3 c show ?thesis
    by blast
qed

text \<open>
  C5 (amended). For every non-empty search string that contains none of the pattern
  characters \<open>%\<close>, \<open>_\<close> and backslash, on a store without failures and with a limit
  the store accepts, the resolver returns the books of the rows that pass the author
  filter and whose title contains the search string in any letter case, cut by the limit
  when one applies; with no other argument these are exactly the books whose title
  contains the search string. The pattern \<open>%value%\<close> is bound to the parameter
  \<open>search\<close>, and the text of the statement is the same for every non-empty search string.
\<close>

theorem books_search_literal:
  assumes "fault_free db" and "search \<noteq> []"
    and "\<forall>c\<in>set search. c \<notin> {CHR ''%'', CHR ''_'', CHR 0x5C}"
    and "limit_valid limit"
  shows "fst (books db author_ids (Some search) limit) =
           Inr (map (book_of db) (cap limit
             (filter (\<lambda>r. author_filter author_ids r \<and> title_contains search r) (books_rel db)))) \<and>
         fst (books db None (Some search) None) = Inr (containing_books db search) \<and>
         snd (snd (books_statement author_ids (Some search) limit)) ''search'' =
           Some (StrV (''%'' @ search @ ''%'')) \<and>
         fst (snd (books_statement author_ids (Some search) limit)) =
           fst (snd (books_statement author_ids (Some ''x'') limit))"
proof -
  obtain c cs where s: "search = c # cs"
    using assms(2) by (cases search) auto
  have m: "search_filter (Some search) r = title_contains search r" for r
    using ilike_wrapped [OF assms(3), of "row_title r"]
    by (simp add: search_filter_def title_contains_def s)
  have q: "qualifying db a (Some search) =
      filter (\<lambda>r. author_filter a r \<and> title_contains search r) (books_rel db)" for a
    by (simp add: qualifying_def qualifies_def [abs_def] m)
  have one: "fst (books db author_ids (Some search) limit) =
      Inr (map (book_of db) (cap limit
        (filter (\<lambda>r. author_filter author_ids r \<and> title_contains search r) (books_rel db))))"
    using books_fault_free [OF assms(1) assms(4), of author_ids "Some search"] by (simp add: q)
  have two: "fst (books db None (Some search) None) = Inr (containing_books db search)"
    using books_fault_free [OF assms(1), of None None "Some search"]
    by (simp add: q limit_valid_def cap_def containing_books_def author_filter_def)
  have three: "snd (snd (books_statement author_ids (Some search) limit)) ''search'' =
      Some (StrV (''%'' @ search @ ''%''))"
    by (cases author_ids rule: opt_list_cases; cases limit)
       (simp_all add: books_statement_def s Let_def)
  have four: "fst (snd (books_statement author_ids (Some search) limit)) =
      fst (snd (books_statement author_ids (Some ''x'') limit))"
    by (cases author_ids rule: opt_list_cases; cases limit)
       (simp_all add: books_statement_def s Let_def)
  from one two three four show ?thesis
    by blast
qed

theorem books_search_literal_witness:
  "fault_free example_db \<and> ''foo'' \<noteq> [] \<and> limit_valid None \<and>
   fst (books example_db None (Some ''foo'') None) =
     Inr [\<lparr>title = ''FooBar'', author = Some \<lparr>name = ''Ann''\<rparr>\<rparr>,
          \<lparr>title = ''Tofoo'', author = Some \<lparr>name = ''Bob''\<rparr>\<rparr>,
          \<lparr>title = ''food'', author = Some \<lparr>name = ''Bob''\<rparr>\<rparr>]"
proof -
  have h1: "fault_free example_db"
    by (simp add: example_simps)
  have h2: "''foo'' \<noteq> []"
    by simp
  have h3: "\<forall>c\<in>set ''foo''. c \<notin> {CHR ''%'', CHR ''_'', CHR 0x5C}"
    by simp
  have h4: "limit_valid None"
    by (simp add: limit_valid_def)
  have e: "containing_books example_db ''foo'' =
     [\<lparr>title = ''FooBar'', author = Some \<lparr>name = ''Ann''\<rparr>\<rparr>,
      \<lparr>title = ''Tofoo'', author = Some \<lparr>name = ''Bob''\<rparr>\<rparr>,
      \<lparr>title = ''food'', author = Some \<lparr>name = ''Bob''\<rparr>\<rparr>]"
    by (simp add: containing_books_def title_contains_def lower_def sublist_Cons_right
        book_of_def author_of_def example_db_def)
  note c = books_search_literal [OF h1 h2 h3 h4, of None, THEN conjunct2, THEN conjunct1,
      unfolded e]
  from h1 h2 h4 c show ?thesis
    by blast
qed

text \<open>
  Without the restriction on the characters of the search string the property fails: for
  the search string \<open>%\<close> every book of the example store is returned, and no title of
  that store contains the character.
\<close>

theorem books_search_percent_counterexample:
  "fst (books example_db None (Some ''%'') None) \<noteq> Inr (containing_books example_db ''%'')"
proof -
  have "fst (books example_db None (Some ''%'') None) =
      Inr (map (book_of example_db) (books_rel example_db))"
    using books_fault_free [of example_db None None "Some ''%''"]
    by (simp add: example_simps limit_valid_def cap_def qualifying_search_only ilike_percent)
  moreover have "containing_books example_db ''%'' = []"
    by (simp add: containing_books_def title_contains_def lower_def sublist_Cons_right
        example_db_def)
  moreover have "map (book_of example_db) (books_rel example_db) \<noteq> []"
    by (simp add: example_db_def)
  ultimately show ?thesis
    by simp
qed

text \<open>
  C6. A lookup that the store does not fail returns the author carrying the row's name
  when exactly one row of the authors relation has the identifier, and returns \<open>None\<close>,
  not an error, when no row has it.
\<close>

theorem get_author_by_id_found_or_absent:
  assumes "faults db (calls db) = None"
  shows "(filter (\<lambda>a. row_id a = author_id) (authors_rel db) = [r] \<longrightarrow>
            fst (get_author_by_id db author_id) = Inr (Some \<lparr>name = row_name r\<rparr>)) \<and>
         (author_id \<notin> set (map row_id (authors_rel db)) \<longrightarrow>
            fst (get_author_by_id db author_id) = Inr None)"
  using assms by (simp add: get_author_by_id_ok author_of_unique author_of_missing)

theorem get_author_by_id_found_or_absent_witness:
  "faults example_db (calls example_db) = None \<and>
   filter (\<lambda>a. row_id a = 2) (authors_rel example_db) = [\<lparr>row_id = 2, row_name = ''Bob''\<rparr>] \<and>
   fst (get_author_by_id example_db 2) = Inr (Some \<lparr>name = ''Bob''\<rparr>) \<and>
   7 \<notin> set (map row_id (authors_rel example_db)) \<and>
   fst (get_author_by_id example_db 7) = Inr None"
proof -
  have h: "faults example_db (calls example_db) = None"
    by (simp add: example_db_def)
  have f: "filter (\<lambda>a. row_id a = 2) (authors_rel example_db) = [\<lparr>row_id = 2, row_name = ''Bob''\<rparr>]"
    by (simp add: example_db_def)
  have m: "7 \<notin> set (map row_id (authors_rel example_db))"
    by (simp add: example_db_def)
  from get_author_by_id_found_or_absent [OF h, of 2 "\<lparr>row_id = 2, row_name = ''Bob''\<rparr>"] f
  have a: "fst (get_author_by_id example_db 2) = Inr (Some \<lparr>name = ''Bob''\<rparr>)"
    by simp
  from get_author_by_id_found_or_absent [OF h, of 7] m
  have b: "fst (get_author_by_id example_db 7) = Inr None"
    by simp
  from h f a m b show ?thesis
    by blast
qed

text \<open>
  C7. A failure of the selection is the result of the call, with the same error. A failure
  of the lookup for a returned row, all lookups before it having succeeded, is the result
  of the call, with the same error; the lookup for row \<open>k\<close> is the data access number
  \<open>k + 1\<close> after the call began. The result of a call is an error or a list, never both:
  a call that returns a list returns one book for every returned row.
\<close>

theorem books_failure_propagates:
  assumes "books_statement author_ids search limit = (cs, q, vs)"
  shows "(fst (fetch_all db q vs) = Inl e \<longrightarrow> fst (books db author_ids search limit) = Inl e) \<and>
         (fst (fetch_all db q vs) = Inr rows \<and> k < length rows \<and>
            (\<forall>j<k. faults db (Suc (calls db) + j) = None) \<and>
            faults db (Suc (calls db) + k) = Some e \<longrightarrow>
            fst (books db author_ids search limit) = Inl e) \<and>
         (fst (fetch_all db q vs) = Inr rows \<and> fst (books db author_ids search limit) = Inr bs \<longrightarrow>
            length bs = length rows)"
proof -
  obtain r db1 where f: "fetch_all db q vs = (r, db1)"
    by (cases "fetch_all db q vs")
  have db1: "db1 = tick db"
    using f by (simp add: fetch_all_def split: option.splits)
  have b: "books db author_ids search limit =
      (case r of Inl e \<Rightarrow> (Inl e, db1) | Inr rows \<Rightarrow> resolve_rows db1 rows [])"
    using assms f by (simp add: books_def split: sum.splits)
  have first: "fst (books db author_ids search limit) = Inl e" if "r = Inl e"
    using that b by simp
  have second: "fst (books db author_ids search limit) = Inl e"
    if "r = Inr rows" "k < length rows"
      "\<forall>j<k. faults db (Suc (calls db) + j) = None" "faults db (Suc (calls db) + k) = Some e"
  proof -
    have "fst (resolve_rows (tick db) rows []) = Inl e"
      using that(2-4) by (intro resolve_rows_fault [of k]) (simp_all add: tick_def)
    with b that(1) db1 show ?thesis by simp
  qed
  have third: "length bs = length rows"
    if ok: "r = Inr rows" and res: "fst (books db author_ids search limit) = Inr bs"
  proof -
    obtain db2 where "resolve_rows db1 rows [] = (Inr bs, db2)"
      using b ok res by (cases "resolve_rows db1 rows []") simp
    from resolve_rows_length [OF this] show ?thesis by simp
  qed
  from first second third f show ?thesis
    by simp
qed

theorem books_failure_propagates_witness:
  "books_statement None None None = ([], ''SELECT title, author_id FROM books'', Map.empty) \<and>
   fst (fetch_all (failing_db 0) ''SELECT title, author_id FROM books'' Map.empty) =
     Inl connection_lost \<and>
   fst (books (failing_db 0) None None None) = Inl connection_lost \<and>
   fst (fetch_all (failing_db 2) ''SELECT title, author_id FROM books'' Map.empty) =
     Inr (books_rel example_db) \<and>
   faults (failing_db 2) (Suc (calls (failing_db 2)) + 1) = Some connection_lost \<and>
   fst (books (failing_db 2) None None None) = Inl connection_lost \<and>
   fst (fetch_all example_db ''SELECT title, author_id FROM books'' Map.empty) =
     Inr (books_rel example_db) \<and>
   fst (books example_db None None None) =
     Inr (map (book_of example_db) (books_rel example_db)) \<and>
   length (map (book_of example_db) (books_rel example_db)) = length (books_rel example_db)"
proof -
  have s: "books_statement None None None =
      ([], ''SELECT title, author_id FROM books'', Map.empty)"
    by (simp add: books_statement_def)
  have f0: "fst (fetch_all (failing_db 0) ''SELECT title, author_id FROM books'' Map.empty) =
      Inl connection_lost"
    by (simp add: fetch_all_def failing_db_def example_db_def)
  have f2: "fst (fetch_all (failing_db 2) ''SELECT title, author_id FROM books'' Map.empty) =
      Inr (books_rel example_db)"
    by (simp add: fetch_all_def run_select_def select_books_def split_limit_def limit_suffix_def
        where_clauses_def failing_db_def example_db_def)
  have k: "(1::nat) < length (books_rel example_db)"
    by (simp add: example_db_def)
  have before: "\<forall>j<1. faults (failing_db 2) (Suc (calls (failing_db 2)) + j) = None"
    by (simp add: failing_db_def example_db_def)
  have at: "faults (failing_db 2) (Suc (calls (failing_db 2)) + 1) = Some connection_lost"
    by (simp add: failing_db_def example_db_def)
  from books_failure_propagates [OF s, of "failing_db 0" connection_lost] f0
  have a: "fst (books (failing_db 0) None None None) = Inl connection_lost"
    by blast
  from books_failure_propagates [OF s, of "failing_db 2" connection_lost "books_rel example_db" 1]
    f2 k before at
  have b: "fst (books (failing_db 2) None None None) = Inl connection_lost"
    by blast
  have fe: "fst (fetch_all example_db ''SELECT title, author_id FROM books'' Map.empty) =
      Inr (books_rel example_db)"
    by (simp add: fetch_all_def run_select_def select_books_def split_limit_def limit_suffix_def
        where_clauses_def example_db_def)
  have "qualifying example_db None None = books_rel example_db"
    by (simp add: qualifying_def qualifies_def author_filter_def search_filter_def)
  then have be: "fst (books example_db None None None) =
      Inr (map (book_of example_db) (books_rel example_db))"
    using books_fault_free [of example_db None None None]
    by (simp add: example_simps limit_valid_def cap_def)
  from books_failure_propagates [OF s, of example_db _ "books_rel example_db" _
      "map (book_of example_db) (books_rel example_db)"] fe be
  have c: "length (map (book_of example_db) (books_rel example_db)) =
      length (books_rel example_db)"
    by blast
  from s f0 a f2 at b fe be c show ?thesis
    by blast
qed

text \<open>
  C8. For every positive limit \<open>n\<close>, on a store without failures, the resolver returns the
  books of the first \<open>n\<close> qualifying rows in the order of the store, which are
  \<open>min n\<close> (number of qualifying rows) books: two books when the limit is 2 and five
  rows qualify.
\<close>

theorem books_positive_limit:
  assumes "fault_free db" and "0 < n"
  shows "fst (books db author_ids search (Some n)) =
           Inr (map (book_of db) (take (nat n) (qualifying db author_ids search))) \<and>
         length (map (book_of db) (take (nat n) (qualifying db author_ids search))) =
           min (nat n) (length (qualifying db author_ids search))"
  using books_fault_free [OF assms(1), of "Some n" author_ids search] assms(2)
  by (simp add: cap_def min_def limit_valid_def)

theorem books_positive_limit_witness:
  "fault_free example_db \<and> (0::int) < 2 \<and>
   length (qualifying example_db None None) = 5 \<and>
   fst (books example_db None None (Some 2)) =
     Inr [\<lparr>title = ''FooBar'', author = Some \<lparr>name = ''Ann''\<rparr>\<rparr>,
          \<lparr>title = ''bar'', author = None\<rparr>]"
proof -
  have h: "fault_free example_db"
    by (simp add: example_simps)
  have q: "qualifying example_db None None = books_rel example_db"
    by (simp add: qualifying_def qualifies_def author_filter_def search_filter_def)
  have l: "length (qualifying example_db None None) = 5"
    unfolding q by (simp add: example_db_def)
  have e: "map (book_of example_db) (take (nat 2) (qualifying example_db None None)) =
      [\<lparr>title = ''FooBar'', author = Some \<lparr>name = ''Ann''\<rparr>\<rparr>, \<lparr>title = ''bar'', author = None\<rparr>]"
    unfolding q by (simp add: book_of_def author_of_def example_db_def)
  have p: "(0::int) < 2"
    by simp
  note c = books_positive_limit [OF h p, of None None, THEN conjunct1, unfolded e]
  from h p l c show ?thesis
    by blast
qed

text \<open>
  C9. With \<open>limit = 0\<close> the resolver builds the statement it builds without a limit (no
  \<open>LIMIT\<close> clause, no bound parameter), so it returns what it returns without a limit; on a
  store without failures that is one book for every qualifying row, not zero books.
\<close>

theorem books_limit_zero:
  "books_statement author_ids search (Some 0) = books_statement author_ids search None \<and>
   books db author_ids search (Some 0) = books db author_ids search None \<and>
   (fault_free db \<longrightarrow>
      fst (books db author_ids search (Some 0)) =
        Inr (map (book_of db) (qualifying db author_ids search)))"
proof -
  have s: "books_statement author_ids search (Some 0) = books_statement author_ids search None"
    by (simp add: books_statement_def)
  have "books db author_ids search (Some 0) = books db author_ids search None"
    by (simp add: books_def s)
  moreover have "fst (books db author_ids search (Some 0)) =
      Inr (map (book_of db) (qualifying db author_ids search))" if "fault_free db"
    using books_fault_free [OF that, of "Some 0" author_ids search]
    by (simp add: cap_def limit_valid_def)
  ultimately show ?thesis using s by simp
qed

theorem books_limit_zero_witness:
  "fault_free example_db \<and>
   fst (books example_db (Some [2]) None (Some 0)) =
     Inr [\<lparr>title = ''Tofoo'', author = Some \<lparr>name = ''Bob''\<rparr>\<rparr>,
          \<lparr>title = ''food'', author = Some \<lparr>name = ''Bob''\<rparr>\<rparr>]"
proof -
  have h: "fault_free example_db"
    by (simp add: example_simps)
  have "map (book_of example_db) (qualifying example_db (Some [2]) None) =
      [\<lparr>title = ''Tofoo'', author = Some \<lparr>name = ''Bob''\<rparr>\<rparr>,
       \<lparr>title = ''food'', author = Some \<lparr>name = ''Bob''\<rparr>\<rparr>]"
    by (simp add: qualifying_def qualifies_def author_filter_def search_filter_def book_of_def
        author_of_def example_db_def)
  note e = this
  note c = books_limit_zero [of "Some [2]" None example_db, THEN conjunct2, THEN conjunct2,
      rule_format, OF h]
  from h c e show ?thesis
    by simp
qed

text \<open>
  C10. The search string is wrapped in \<open>%\<close> and bound as it is, its own characters not
  escaped, so the store reads it as a pattern: with no other argument the resolver
  returns the books whose title matches \<open>%value%\<close>. The search string \<open>%\<close> returns every
  book, whether or not its title contains that character, and the search string \<open>_\<close>
  returns every book with a title that is not empty.
\<close>

theorem books_search_is_pattern:
  "snd (snd (books_statement author_ids (Some (c # cs)) limit)) ''search'' =
     Some (StrV (''%'' @ (c # cs) @ ''%'')) \<and>
   (fault_free db \<longrightarrow>
      fst (books db None (Some (c # cs)) None) =
        Inr (map (book_of db)
          (filter (\<lambda>r. ilike (row_title r) (''%'' @ (c # cs) @ ''%'')) (books_rel db)))) \<and>
   (fault_free db \<longrightarrow>
      fst (books db None (Some ''%'') None) = Inr (map (book_of db) (books_rel db))) \<and>
   (fault_free db \<longrightarrow>
      fst (books db None (Some ''_'') None) =
        Inr (map (book_of db) (filter (\<lambda>r. row_title r \<noteq> []) (books_rel db))))"
proof -
  have one: "snd (snd (books_statement author_ids (Some (c # cs)) limit)) ''search'' =
      Some (StrV (''%'' @ (c # cs) @ ''%''))"
    by (cases author_ids rule: opt_list_cases; cases limit)
       (simp_all add: books_statement_def Let_def)
  have any: "fst (books db None (Some (d # ds)) None) =
      Inr (map (book_of db)
        (filter (\<lambda>r. ilike (row_title r) (''%'' @ (d # ds) @ ''%'')) (books_rel db)))"
    if "fault_free db" for d ds
    using books_fault_free [OF that, of None None "Some (d # ds)"]
    by (simp add: limit_valid_def cap_def qualifying_search_only)
  have percent: "fst (books db None (Some ''%'') None) = Inr (map (book_of db) (books_rel db))"
    if "fault_free db"
    using any [OF that, of "CHR ''%''" "[]"] by (simp add: ilike_percent)
  have underscore: "fst (books db None (Some ''_'') None) =
      Inr (map (book_of db) (filter (\<lambda>r. row_title r \<noteq> []) (books_rel db)))"
    if "fault_free db"
    using any [OF that, of "CHR ''_''" "[]"] by (simp add: ilike_underscore)
  from one any percent underscore show ?thesis
    by blast
qed

theorem books_search_is_pattern_witness:
  "fault_free example_db \<and>
   fst (books example_db None (Some ''%'') None) =
     Inr (map (book_of example_db) (books_rel example_db)) \<and>
   length (books_rel example_db) = 5 \<and>
   \<not> title_contains ''%'' (books_rel example_db ! 1)"
proof -
  have h: "fault_free example_db"
    by (simp add: example_simps)
  note c = books_search_is_pattern [of None "CHR ''%''" "[]" None example_db,
      THEN conjunct2, THEN conjunct2, THEN conjunct1, rule_format, OF h]
  have l: "length (books_rel example_db) = 5"
    by (simp add: example_db_def)
  have n: "\<not> title_contains ''%'' (books_rel example_db ! 1)"
    by (simp add: title_contains_def lower_def sublist_Cons_right example_db_def)
  from h c l n show ?thesis
    by blast
qed

end
